theory Spec2Isabelle
  imports Complex_Main "HOL-Library.Word"
begin

section \<open>Strings of the host language\<close>

text \<open>
  A JavaScript string is a sequence of UTF-16 code units. Literals of the source are written
  with \<open>js\<close>, which embeds an ASCII literal code unit by code unit.
\<close>

type_synonym codeunit = "16 word"
type_synonym jsstring = "codeunit list"

definition js :: "string \<Rightarrow> jsstring" where
  "js s = map of_char s"

text \<open>
  The class \<open>\s\<close> of regular expressions and the characters removed by \<open>trim\<close> are the same
  set: WhiteSpace and LineTerminator of ECMA-262.
\<close>

definition isWhiteSpace :: "codeunit \<Rightarrow> bool" where
  "isWhiteSpace c \<longleftrightarrow>
     c = 0x0009 \<or> c = 0x000A \<or> c = 0x000B \<or> c = 0x000C \<or> c = 0x000D \<or> c = 0x0020 \<or>
     c = 0x00A0 \<or> c = 0x1680 \<or> (0x2000 \<le> c \<and> c \<le> 0x200A) \<or> c = 0x2028 \<or> c = 0x2029 \<or>
     c = 0x202F \<or> c = 0x205F \<or> c = 0x3000 \<or> c = 0xFEFF"

text \<open>The class \<open>\d\<close>: the ten ASCII digits.\<close>

definition isDigit :: "codeunit \<Rightarrow> bool" where
  "isDigit c \<longleftrightarrow> 0x30 \<le> c \<and> c \<le> 0x39"

text \<open>\<open>String.prototype.trim\<close> and \<open>trimStart\<close>.\<close>

definition trimStart :: "jsstring \<Rightarrow> jsstring" where
  "trimStart s = dropWhile isWhiteSpace s"

definition trim :: "jsstring \<Rightarrow> jsstring" where
  "trim s = rev (dropWhile isWhiteSpace (rev (dropWhile isWhiteSpace s)))"

text \<open>\<open>Array.prototype.join\<close> on an array of strings.\<close>

fun join :: "jsstring \<Rightarrow> jsstring list \<Rightarrow> jsstring" where
  "join sep [] = []"
| "join sep [x] = x"
| "join sep (x # y # ys) = x @ sep @ join sep (y # ys)"

text \<open>\<open>String.prototype.startsWith\<close> and \<open>includes\<close>: prefix and substring tests.\<close>

fun startsWith :: "jsstring \<Rightarrow> jsstring \<Rightarrow> bool" where
  "startsWith t [] = True"
| "startsWith [] (c # cs) = False"
| "startsWith (d # ds) (c # cs) = (d = c \<and> startsWith ds cs)"


section \<open>Regular expressions\<close>

text \<open>
  The fragment of ECMAScript regular expressions that the source uses: character classes,
  sequence, alternation, the greedy quantifiers \<open>?\<close> and \<open>*\<close> (\<open>+\<close> is one iteration followed
  by \<open>*\<close>), the lazy quantifier \<open>*?\<close>, capture groups and positive lookahead.
\<close>

datatype regex =
    Empty
  | Chr "codeunit \<Rightarrow> bool"
  | Seq regex regex
  | Alt regex regex
  | Opt regex
  | Star regex
  | LazyStar regex
  | Group nat regex
  | Ahead regex

type_synonym captures = "(nat \<times> jsstring) list"

text \<open>
  A matcher state is the input that is still to be read and the captures made so far. The
  regular expression has no backreference and no lookbehind, so what was read before the
  current position never matters.
\<close>

type_synonym mstate = "jsstring \<times> captures"

text \<open>
  The backtracking matcher of ECMA-262, as the list of all its successes in the order in which
  backtracking tries them: the head of the list is the match the engine reports. A quantifier
  with minimum 0 rejects an iteration that reads nothing (the empty check of RepeatMatcher).
  A lookahead keeps the first success of its body only and restores the position.
\<close>

function matcher :: "regex \<Rightarrow> mstate \<Rightarrow> mstate list" where
  "matcher Empty x = [x]"
| "matcher (Chr p) x =
     (case fst x of [] \<Rightarrow> [] | c # cs \<Rightarrow> if p c then [(cs, snd x)] else [])"
| "matcher (Seq a b) x = concat (map (matcher b) (matcher a x))"
| "matcher (Alt a b) x = matcher a x @ matcher b x"
| "matcher (Opt a) x =
     filter (\<lambda>y. length (fst y) < length (fst x)) (matcher a x) @ [x]"
| "matcher (Star a) x =
     concat (map (\<lambda>y. if length (fst y) < length (fst x) then matcher (Star a) y else [])
                 (matcher a x)) @ [x]"
| "matcher (LazyStar a) x =
     x # concat (map (\<lambda>y. if length (fst y) < length (fst x) then matcher (LazyStar a) y else [])
                     (matcher a x))"
| "matcher (Group n a) x =
     map (\<lambda>y. (fst y, (n, take (length (fst x) - length (fst y)) (fst x)) # snd y))
         (matcher a x)"
| "matcher (Ahead a) x =
     (case matcher a x of [] \<Rightarrow> [] | y # _ \<Rightarrow> [(fst x, snd y)])"
  by pat_completeness auto
termination
  by (relation "inv_image (less_than <*lex*> less_than) (\<lambda>(r, x). (size r, length (fst x)))")
     auto

fun Lit :: "jsstring \<Rightarrow> regex" where
  "Lit [] = Empty"
| "Lit [c] = Chr (\<lambda>d. d = c)"
| "Lit (c # cs) = Seq (Chr (\<lambda>d. d = c)) (Lit cs)"

definition Plus :: "regex \<Rightarrow> regex" where
  "Plus a = Seq a (Star a)"

text \<open>
  \<open>RegExpBuiltinExec\<close> for a global regular expression: the first position, from the current
  one on, at which the matcher succeeds. The result is the input from the start of the match,
  the input after the match and the captures. The position at the end of the input is tried
  too.
\<close>

fun regExpExec :: "regex \<Rightarrow> jsstring \<Rightarrow> (jsstring \<times> mstate) option" where
  "regExpExec r [] = (case matcher r ([], []) of [] \<Rightarrow> None | y # _ \<Rightarrow> Some ([], y))"
| "regExpExec r (c # cs) =
     (case matcher r (c # cs, []) of [] \<Rightarrow> regExpExec r cs | y # _ \<Rightarrow> Some (c # cs, y))"

text \<open>
  \<open>Array.from(content.matchAll(r))\<close>: every match array, in order. Group 0 is the matched
  text. After a match the search continues where the match ended; after an empty match it
  continues one code unit later.
\<close>

function matchAll :: "regex \<Rightarrow> jsstring \<Rightarrow> captures list" where
  "matchAll r s =
     (case regExpExec r s of
        None \<Rightarrow> []
      | Some (s0, (s1, caps)) \<Rightarrow>
          ((0, take (length s0 - length s1) s0) # caps) #
          (if length s1 < length s0 then matchAll r s1
           else (case s0 of [] \<Rightarrow> [] | _ # t \<Rightarrow> matchAll r t)))"
  by pat_completeness auto
termination
proof (relation "measure (\<lambda>(r, s). length s)")
  have len: "length s0 \<le> length s" if "regExpExec r s = Some (s0, y)" for r s s0 y
    using that by (induction s) (auto split: list.splits)
  show "wf (measure (\<lambda>(r, s). length s))"
    by simp
  show "((r, s1), (r, s)) \<in> measure (\<lambda>(r, s). length s)"
    if "regExpExec r s = Some x" "(s0, y) = x" "(s1, caps) = y" "length s1 < length s0"
    for r s x s0 y s1 caps
    using that len [of r s s0 y] by simp
  show "((r, t), (r, s)) \<in> measure (\<lambda>(r, s). length s)"
    if "regExpExec r s = Some x" "(s0, y) = x" "(s1, caps) = y" "\<not> length s1 < length s0"
       "s0 = c # t"
    for r s x s0 y s1 caps c t
    using that len [of r s s0 y] by simp
qed

text \<open>
  Element \<open>n\<close> of a match array. A group that did not take part in the match is
  \<open>undefined\<close>, which a template literal prints as the text \<open>undefined\<close>.
\<close>

definition grp :: "captures \<Rightarrow> nat \<Rightarrow> jsstring" where
  "grp v n = (case map_of v n of None \<Rightarrow> js ''undefined'' | Some g \<Rightarrow> g)"

text \<open>A regular expression without capture groups.\<close>

fun groupFree :: "regex \<Rightarrow> bool" where
  "groupFree Empty = True"
| "groupFree (Chr p) = True"
| "groupFree (Seq a b) = (groupFree a \<and> groupFree b)"
| "groupFree (Alt a b) = (groupFree a \<and> groupFree b)"
| "groupFree (Opt a) = groupFree a"
| "groupFree (Star a) = groupFree a"
| "groupFree (LazyStar a) = groupFree a"
| "groupFree (Group n a) = False"
| "groupFree (Ahead a) = groupFree a"

section \<open>The version parser\<close>

text \<open>
  A version number as the specification words it: digits, optionally followed by a dot and
  digits.
\<close>

definition isVersionNumber :: "jsstring \<Rightarrow> bool" where
  "isVersionNumber v =
     (let d1 = takeWhile isDigit v; r = dropWhile isDigit v in
      d1 \<noteq> [] \<and>
      (case r of [] \<Rightarrow> True | c # d2 \<Rightarrow> c = 0x2E \<and> d2 \<noteq> [] \<and> list_all isDigit d2))"

text \<open>The first capture group of the regular expression below, \<^verbatim>\<open>\d+(?:\.\d+)?\<close>.\<close>

definition numberRegex :: regex where
  "numberRegex =
     Seq (Plus (Chr isDigit)) (Opt (Seq (Chr (\<lambda>c. c = 0x2E)) (Plus (Chr isDigit))))"

text \<open>
  The regular expression of \<open>extractPromptData\<close>,
  \<^verbatim>\<open>/### Version\s+(\d+(?:\.\d+)?)\n([\s\S]*?)(?=### Version|\z)/g\<close>.
  The expression has no \<open>u\<close> flag, so \<^verbatim>\<open>\z\<close> is an identity escape: it matches the
  letter \<open>z\<close> (code unit 0x7A). The class \<^verbatim>\<open>[\s\S]\<close> holds every code unit.
\<close>

definition versionRegex :: regex where
  "versionRegex =
     Seq (Lit (js ''### Version''))
    (Seq (Plus (Chr isWhiteSpace))
    (Seq (Group 1 (Seq (Plus (Chr isDigit))
                       (Opt (Seq (Chr (\<lambda>c. c = 0x2E)) (Plus (Chr isDigit))))))
    (Seq (Chr (\<lambda>c. c = 0x0A))
    (Seq (Group 2 (LazyStar (Chr (\<lambda>c. True))))
         (Ahead (Alt (Lit (js ''### Version'')) (Chr (\<lambda>c. c = 0x7A))))))))"

record PromptParts =
  version :: jsstring
  details :: jsstring
  fullContent :: jsstring

definition extractPromptData :: "jsstring \<Rightarrow> PromptParts" where
  "extractPromptData content =
     (let versionMatches = matchAll versionRegex content in
      if length versionMatches = 0
      then \<lparr>version = js ''0.0'', details = trim content, fullContent = content\<rparr>
      else
        let lastVersion = versionMatches ! (length versionMatches - 1) in
        \<lparr>version = grp lastVersion 1,
         details = trim (grp lastVersion 2),
         fullContent =
           join (js ''\<newline>\<newline>'')
             (map (\<lambda>v. js ''### Version '' @ grp v 1 @ js ''\<newline>'' @ grp v 2)
                  versionMatches)\<rparr>)"

section \<open>Numbers\<close>

text \<open>
  \<open>parseFloat\<close> of ECMA-262: white space is removed from the start, and the longest prefix
  that is a \<open>StrDecimalLiteral\<close> (an optional sign, then \<open>Infinity\<close>, digits with an optional
  fraction, or a fraction, then an optional exponent) is converted to a number; the result is
  NaN when there is no such prefix.
\<close>

definition exponentPart :: "jsstring \<Rightarrow> jsstring" where
  "exponentPart s =
     (case s of
        [] \<Rightarrow> []
      | e # r \<Rightarrow>
          if e = 0x65 \<or> e = 0x45 then
            (let sg = (case r of [] \<Rightarrow> [] | c # _ \<Rightarrow> if c = 0x2B \<or> c = 0x2D then [c] else []);
                 ds = takeWhile isDigit (drop (length sg) r)
             in if ds = [] then [] else e # sg @ ds)
          else [])"

definition strUnsignedDecimalLiteral :: "jsstring \<Rightarrow> jsstring option" where
  "strUnsignedDecimalLiteral s =
     (if startsWith s (js ''Infinity'') then Some (js ''Infinity'')
      else
        let d1 = takeWhile isDigit s; r1 = dropWhile isDigit s in
        if d1 \<noteq> [] then
          (case r1 of
             [] \<Rightarrow> Some d1
           | c # r2 \<Rightarrow>
               if c = 0x2E
               then Some (d1 @ [c] @ takeWhile isDigit r2 @ exponentPart (dropWhile isDigit r2))
               else Some (d1 @ exponentPart r1))
        else
          (case r1 of
             [] \<Rightarrow> None
           | c # r2 \<Rightarrow>
               if c = 0x2E \<and> takeWhile isDigit r2 \<noteq> []
               then Some ([c] @ takeWhile isDigit r2 @ exponentPart (dropWhile isDigit r2))
               else None))"

definition strDecimalLiteral :: "jsstring \<Rightarrow> jsstring option" where
  "strDecimalLiteral s =
     (case s of
        [] \<Rightarrow> None
      | c # r \<Rightarrow>
          if c = 0x2B \<or> c = 0x2D
          then map_option (\<lambda>u. c # u) (strUnsignedDecimalLiteral r)
          else strUnsignedDecimalLiteral s)"

text \<open>
  The value of a literal is a double. The model keeps the doubles other than NaN abstract: any
  linear order \<open>'n\<close>, with the conversion \<open>num\<close> of a literal as a parameter. NaN is \<open>None\<close>.
\<close>

definition parseFloat :: "(jsstring \<Rightarrow> 'n) \<Rightarrow> jsstring \<Rightarrow> 'n option" where
  "parseFloat num s = map_option num (strDecimalLiteral (trimStart s))"

text \<open>
  The sign of a difference \<open>y - x\<close> of two numbers; the difference of two equal numbers is
  zero, or NaN when both are the same infinity, and a difference with NaN is NaN.
\<close>

datatype difference = Negative | Zero | Positive | NaN

definition subtract :: "'n::linorder option \<Rightarrow> 'n option \<Rightarrow> difference" where
  "subtract y x =
     (case (y, x) of
        (Some b, Some a) \<Rightarrow> if a < b then Positive else if b < a then Negative else Zero
      | _ \<Rightarrow> NaN)"

text \<open>
  \<open>Array.prototype.sort\<close> with a comparator. The sort is stable, a comparator result of NaN
  counts as zero, and an element moves behind another one only when the comparator is
  positive. The model is the insertion sort with these properties.
\<close>

fun insertSorted :: "('a \<Rightarrow> 'a \<Rightarrow> difference) \<Rightarrow> 'a \<Rightarrow> 'a list \<Rightarrow> 'a list" where
  "insertSorted cmp x [] = [x]"
| "insertSorted cmp x (y # ys) =
     (if cmp x y = Positive then y # insertSorted cmp x ys else x # y # ys)"

definition arraySort :: "('a \<Rightarrow> 'a \<Rightarrow> difference) \<Rightarrow> 'a list \<Rightarrow> 'a list" where
  "arraySort cmp xs = foldr (insertSorted cmp) xs []"

section \<open>The vault of the host\<close>

record TFile =
  path :: jsstring
  basename :: jsstring
  extension :: jsstring
  parent :: "jsstring option" \<comment> \<open>the path of the parent folder, \<open>None\<close> for \<open>null\<close>\<close>

datatype TAbstractFile = File TFile | Folder jsstring \<comment> \<open>a folder, with its path\<close>

record Vault =
  getAbstractFileByPath :: "jsstring \<Rightarrow> TAbstractFile option"
  getFiles :: "TFile list"
  read :: "TFile \<Rightarrow> jsstring option" \<comment> \<open>\<open>None\<close> when the promise is rejected\<close>

section \<open>The prompt view\<close>

record PromptData = PromptParts +
  name :: jsstring
  promptFile :: TFile

datatype ViewType = BoardView | ListView

text \<open>What the view asks of the host, in the order of the calls.\<close>

datatype effect =
    Notice jsstring
  | VaultCreate jsstring jsstring
  | VaultCreateFolder jsstring
  | ClipboardWriteText jsstring
  | ConsoleError jsstring

datatype error = ReadRejected TFile | CreateRejected jsstring

text \<open>
  A rendered row of the list table or card of the board: its class, its text content, its
  \<open>style.display\<close> and the record its handlers close over.
\<close>

record Item =
  cls :: ViewType
  textContent :: jsstring
  display :: jsstring
  prompt :: PromptData

record PromptView =
  promptFolderPath :: jsstring \<comment> \<open>\<open>this.plugin.settings.promptFolderPath\<close>\<close>
  vault :: Vault \<comment> \<open>\<open>this.app.vault\<close>\<close>
  prompts :: "PromptData list"
  viewType :: ViewType
  items :: "Item list" \<comment> \<open>the rows or cards below \<open>containerEl\<close>\<close>
  effects :: "effect list"

definition notice :: "string \<Rightarrow> PromptView \<Rightarrow> PromptView" where
  "notice msg st = st\<lparr>effects := effects st @ [Notice (js msg)]\<rparr>"

fun readAll :: "(TFile \<Rightarrow> jsstring option) \<Rightarrow> TFile list \<Rightarrow> error + jsstring list" where
  "readAll rd [] = Inr []"
| "readAll rd (f # fs) =
     (case rd f of
        None \<Rightarrow> Inl (ReadRejected f)
      | Some c \<Rightarrow> (case readAll rd fs of Inl e \<Rightarrow> Inl e | Inr cs \<Rightarrow> Inr (c # cs)))"

definition mkPrompt :: "TFile \<Rightarrow> jsstring \<Rightarrow> PromptData" where
  "mkPrompt f content =
     (let r = extractPromptData content in
      \<lparr>version = version r, details = details r, fullContent = fullContent r,
       name = basename f, promptFile = f\<rparr>)"

definition compareFn :: "(jsstring \<Rightarrow> 'n::linorder) \<Rightarrow> PromptData \<Rightarrow> PromptData \<Rightarrow> difference" where
  "compareFn num a b =
     (let versionA = parseFloat num (version a); versionB = parseFloat num (version b)
      in subtract versionB versionA)"

definition refresh :: "(jsstring \<Rightarrow> 'n::linorder) \<Rightarrow> PromptView \<Rightarrow> error + PromptView" where
  "refresh num st =
     (if promptFolderPath st = []
      then Inr (notice ''Please select a prompts folder in the plugin settings.'' st)
      else
        case getAbstractFileByPath (vault st) (promptFolderPath st) of
          Some (Folder folderPath) \<Rightarrow>
            (let files = filter (\<lambda>f. case parent f of None \<Rightarrow> False | Some p \<Rightarrow> p = folderPath)
                                (getFiles (vault st));
                 mdFiles = filter (\<lambda>f. extension f = js ''md'') files
             in case readAll (read (vault st)) mdFiles of
                  Inl e \<Rightarrow> Inl e
                | Inr contents \<Rightarrow>
                    Inr (st\<lparr>prompts :=
                              arraySort (compareFn num) (map2 mkPrompt mdFiles contents)\<rparr>))
        | _ \<Rightarrow> Inr (notice ''Invalid prompts folder selected.'' st))"

definition renderList :: "PromptData list \<Rightarrow> Item list" where
  "renderList ps =
     map (\<lambda>p. \<lparr>cls = ListView,
               textContent = name p @ version p @ js ''Edit'' @ js ''Copy'',
               display = [], prompt = p\<rparr>) ps"

definition renderBoard :: "PromptData list \<Rightarrow> Item list" where
  "renderBoard ps =
     map (\<lambda>p. \<lparr>cls = BoardView,
               textContent = name p @ (js ''v'' @ version p) @ details p @ js ''Copy'',
               display = [], prompt = p\<rparr>) ps"

definition render :: "PromptView \<Rightarrow> PromptView" where
  "render st =
     st\<lparr>items := (if viewType st = ListView then renderList (prompts st)
                   else renderBoard (prompts st))\<rparr>"

text \<open>
  The click handlers of the two Copy buttons. \<open>ok\<close> says whether the host resolves the promise
  of \<open>navigator.clipboard.writeText\<close>.
\<close>

definition copyOutcome :: "bool \<Rightarrow> PromptData \<Rightarrow> effect list" where
  "copyOutcome ok p =
     (if ok then [Notice (js ''Copied prompt version '' @ version p @ js '' content'')]
      else [ConsoleError (js ''Failed to copy: ''), Notice (js ''Failed to copy content'')])"

definition renderList_copy_onclick :: "bool \<Rightarrow> PromptData \<Rightarrow> PromptView \<Rightarrow> PromptView" where
  "renderList_copy_onclick ok p st =
     st\<lparr>effects := effects st @ ClipboardWriteText (details p) # copyOutcome ok p\<rparr>"

definition renderBoard_copy_onclick :: "bool \<Rightarrow> PromptData \<Rightarrow> PromptView \<Rightarrow> PromptView" where
  "renderBoard_copy_onclick ok p st =
     st\<lparr>effects := effects st @ ClipboardWriteText (details p) # copyOutcome ok p\<rparr>"



text \<open>
  The callback that \<open>showNewPromptModal\<close> gives to the dialog, and the click handler of the
  dialog's Create button, which passes the text of the input field to it. \<open>create\<close> is the
  host's \<open>vault.create\<close>: the vault with the new file, or \<open>None\<close> when the host rejects.
  After the call the dialog closes; the dialog is not part of the state of the view.
\<close>

definition showNewPromptModal_onSubmit ::
  "(jsstring \<Rightarrow> jsstring \<Rightarrow> Vault \<Rightarrow> Vault option) \<Rightarrow> (jsstring \<Rightarrow> 'n::linorder) \<Rightarrow>
   jsstring \<Rightarrow> PromptView \<Rightarrow> error + PromptView" where
  "showNewPromptModal_onSubmit create num nm st =
     (if nm \<noteq> [] then
        if promptFolderPath st = []
        then Inr (notice ''Please select a prompts folder in the plugin settings.'' st)
        else
          case getAbstractFileByPath (vault st) (promptFolderPath st) of
            Some (Folder folderPath) \<Rightarrow>
              (let content = js ''### Version 1.0\<newline>\<newline>New prompt content'';
                   st1 = st\<lparr>effects := effects st @ [VaultCreate (nm @ js ''.md'') content]\<rparr>
               in case create (nm @ js ''.md'') content (vault st1) of
                    None \<Rightarrow> Inl (CreateRejected (nm @ js ''.md''))
                  | Some v \<Rightarrow>
                      (case refresh num (st1\<lparr>vault := v\<rparr>) of
                         Inl e \<Rightarrow> Inl e
                       | Inr st2 \<Rightarrow> Inr (render st2)))
          | _ \<Rightarrow> Inr (notice ''Invalid prompts folder selected.'' st)
      else Inr st)"

definition submitButton_onclick ::
  "(jsstring \<Rightarrow> jsstring \<Rightarrow> Vault \<Rightarrow> Vault option) \<Rightarrow> (jsstring \<Rightarrow> 'n::linorder) \<Rightarrow>
   jsstring \<Rightarrow> PromptView \<Rightarrow> error + PromptView" where
  "submitButton_onclick create num inputValue st =
     showNewPromptModal_onSubmit create num inputValue st"

text \<open>
  \<open>PromptManagerPlugin.createPrompt\<close> of the plugin shell, with the host's \<open>normalizePath\<close>,
  \<open>vault.createFolder\<close> and \<open>vault.create\<close> as parameters. No handler of the view calls it.
\<close>

definition createPrompt ::
  "(jsstring \<Rightarrow> jsstring) \<Rightarrow> (jsstring \<Rightarrow> Vault \<Rightarrow> Vault option) \<Rightarrow>
   (jsstring \<Rightarrow> jsstring \<Rightarrow> Vault \<Rightarrow> Vault option) \<Rightarrow>
   jsstring \<Rightarrow> jsstring \<Rightarrow> PromptView \<Rightarrow> error + PromptView" where
  "createPrompt normalizePath createFolder create nm content st =
     (let folderPath = normalizePath (promptFolderPath st);
          r1 = (case getAbstractFileByPath (vault st) folderPath of
                  None \<Rightarrow>
                    (case createFolder folderPath (vault st) of
                       None \<Rightarrow> Inl (CreateRejected folderPath)
                     | Some v \<Rightarrow>
                         Inr (st\<lparr>vault := v,
                                 effects := effects st @ [VaultCreateFolder folderPath]\<rparr>))
                | Some _ \<Rightarrow> Inr st)
      in case r1 of
           Inl e \<Rightarrow> Inl e
         | Inr st1 \<Rightarrow>
             (let filePath = normalizePath (folderPath @ js ''/'' @ nm @ js ''.md'');
                  st2 = st1\<lparr>effects := effects st1 @ [VaultCreate filePath content]\<rparr>
              in case create filePath content (vault st2) of
                   None \<Rightarrow> Inl (CreateRejected filePath)
                 | Some v \<Rightarrow> Inr (st2\<lparr>vault := v\<rparr>)))"

section \<open>Example states\<close>


definition digitsValue :: "jsstring \<Rightarrow> nat" where
  "digitsValue ds = foldl (\<lambda>n c. 10 * n + unat (c - 0x30)) 0 ds"

definition decimalValue :: "jsstring \<Rightarrow> rat" where
  "decimalValue s =
     (let d1 = takeWhile isDigit s;
          d2 = takeWhile isDigit (drop 1 (dropWhile isDigit s))
      in of_nat (digitsValue d1) + of_nat (digitsValue d2) / 10 ^ length d2)"

text \<open>
  \<open>vault.create\<close> of the host: it rejects a path that is taken; otherwise the vault has a new
  file, whose parent is the folder named before the last slash of the path, or the root folder
  \<open>/\<close> when the path has no slash.
\<close>

definition vaultCreate :: "jsstring \<Rightarrow> jsstring \<Rightarrow> Vault \<Rightarrow> Vault option" where
  "vaultCreate p content v =
     (case getAbstractFileByPath v p of
        Some _ \<Rightarrow> None
      | None \<Rightarrow>
          (let nm = rev (takeWhile (\<lambda>c. c \<noteq> 0x2F) (rev p));
               ext = (if 0x2E \<in> set nm then rev (takeWhile (\<lambda>c. c \<noteq> 0x2E) (rev nm)) else []);
               f = \<lparr>path = p,
                    basename = (if 0x2E \<in> set nm then take (length nm - length ext - 1) nm else nm),
                    extension = ext,
                    parent = Some (if 0x2F \<in> set p then take (length p - length nm - 1) p
                                   else js ''/'')\<rparr>
           in Some \<lparr>getAbstractFileByPath =
                       (\<lambda>q. if q = p then Some (File f) else getAbstractFileByPath v q),
                     getFiles = getFiles v @ [f],
                     read = (\<lambda>g. if g = f then Some content else read v g)\<rparr>))"

definition exampleFile :: "string \<Rightarrow> string \<Rightarrow> string \<Rightarrow> TFile" where
  "exampleFile folder base ext =
     \<lparr>path = js folder @ js ''/'' @ js base @ js ''.'' @ js ext, basename = js base,
      extension = js ext, parent = Some (js folder)\<rparr>"

text \<open>
  A vault with the folders \<open>prompts\<close> and \<open>other\<close>. The folder \<open>prompts\<close> holds three prompt
  files and a text file, the folder \<open>other\<close> one prompt file.
\<close>

definition exampleContents :: "(TFile \<times> jsstring) list" where
  "exampleContents =
     [(exampleFile ''prompts'' ''alpha'' ''md'',
         js ''### Version 1.0\<newline>first\<newline>### Version 2.0\<newline>second''),
      (exampleFile ''prompts'' ''notes'' ''txt'', js ''### Version 7\<newline>text\<newline>### Version 8\<newline>''),
      (exampleFile ''prompts'' ''beta'' ''md'', js ''plain notes''),
      (exampleFile ''other'' ''delta'' ''md'', js ''### Version 5\<newline>far\<newline>### Version 6\<newline>''),
      (exampleFile ''prompts'' ''gamma'' ''md'',
         js ''### Version 3.5\<newline>x\<newline>### Version 9\<newline>tail'')]"

definition exampleVault :: Vault where
  "exampleVault =
     \<lparr>getAbstractFileByPath =
        (\<lambda>p. if p = js ''prompts'' \<or> p = js ''other'' then Some (Folder p)
              else map_option File (find (\<lambda>f. path f = p) (map fst exampleContents))),
      getFiles = map fst exampleContents,
      read = map_of exampleContents\<rparr>"

definition exampleView :: PromptView where
  "exampleView =
     \<lparr>promptFolderPath = js ''prompts'', vault = exampleVault, prompts = [],
      viewType = ListView, items = [], effects = []\<rparr>"

definition examplePrompt :: "string \<Rightarrow> string \<Rightarrow> string \<Rightarrow> string \<Rightarrow> PromptData" where
  "examplePrompt nm ver det full =
     \<lparr>version = js ver, details = js det, fullContent = js full, name = js nm,
      promptFile = exampleFile ''prompts'' nm ''md''\<rparr>"


section \<open>Properties of the matcher\<close>

text \<open>
  The equations of the two recursive functions are used by hand: as rewrite rules they would
  unfold without end.
\<close>

declare matcher.simps [simp del]
declare matchAll.simps [simp del]

lemma in_Empty: "y \<in> set (matcher Empty x) \<longleftrightarrow> y = x"
  by (simp add: matcher.simps(1))

lemma in_Chr:
  "y \<in> set (matcher (Chr p) x) \<longleftrightarrow> (\<exists>c. fst x = c # fst y \<and> p c \<and> snd y = snd x)"
  by (cases x; cases y) (auto simp: matcher.simps(2) split: list.splits)

lemma in_Seq:
  "y \<in> set (matcher (Seq a b) x) \<longleftrightarrow> (\<exists>z \<in> set (matcher a x). y \<in> set (matcher b z))"
  by (auto simp: matcher.simps(3))

lemma in_Alt:
  "y \<in> set (matcher (Alt a b) x) \<longleftrightarrow> y \<in> set (matcher a x) \<or> y \<in> set (matcher b x)"
  by (auto simp: matcher.simps(4))

lemma in_Opt:
  "y \<in> set (matcher (Opt a) x) \<longleftrightarrow>
     y = x \<or> (y \<in> set (matcher a x) \<and> length (fst y) < length (fst x))"
  by (auto simp: matcher.simps(5))

lemma in_Star:
  "y \<in> set (matcher (Star a) x) \<longleftrightarrow>
     y = x \<or> (\<exists>z \<in> set (matcher a x). length (fst z) < length (fst x) \<and>
                 y \<in> set (matcher (Star a) z))"
  by (subst matcher.simps(6)) (auto split: if_splits)

lemma in_LazyStar:
  "y \<in> set (matcher (LazyStar a) x) \<longleftrightarrow>
     y = x \<or> (\<exists>z \<in> set (matcher a x). length (fst z) < length (fst x) \<and>
                 y \<in> set (matcher (LazyStar a) z))"
  by (subst matcher.simps(7)) (auto split: if_splits)

lemma in_Group:
  "y \<in> set (matcher (Group n a) x) \<longleftrightarrow>
     (\<exists>z \<in> set (matcher a x).
        y = (fst z, (n, take (length (fst x) - length (fst z)) (fst x)) # snd z))"
  by (auto simp: matcher.simps(8))

lemma in_Ahead:
  "y \<in> set (matcher (Ahead a) x) \<longleftrightarrow>
     (\<exists>z zs. matcher a x = z # zs \<and> y = (fst x, snd z))"
  by (cases "matcher a x") (auto simp: matcher.simps(9))

lemma matcher_suffix:
  "y \<in> set (matcher r x) \<Longrightarrow> \<exists>p. fst x = p @ fst y"
proof (induction r x arbitrary: y rule: matcher.induct)
  case (1 x)
  then show ?case by (simp add: in_Empty)
next
  case (2 p x)
  then obtain c where "fst x = [c] @ fst y" by (auto simp: in_Chr)
  then show ?case by blast
next
  case (3 a b x)
  from "3.prems" obtain z where z: "z \<in> set (matcher a x)" "y \<in> set (matcher b z)"
    by (auto simp: in_Seq)
  from "3.IH"(1) [OF z(1)] obtain p where p: "fst x = p @ fst z" by blast
  from "3.IH"(2) [OF z(1) z(2)] obtain q where q: "fst z = q @ fst y" by blast
  from p q have "fst x = (p @ q) @ fst y" by simp
  then show ?case by blast
next
  case (4 a b x)
  from "4.prems" consider "y \<in> set (matcher a x)" | "y \<in> set (matcher b x)"
    by (auto simp: in_Alt)
  then show ?case
  proof cases
    case 1
    from "4.IH"(1) [OF 1] show ?thesis .
  next
    case 2
    from "4.IH"(2) [OF 2] show ?thesis .
  qed
next
  case (5 a x)
  from "5.prems" consider "y = x" | "y \<in> set (matcher a x)" by (auto simp: in_Opt)
  then show ?case
  proof cases
    case 1
    then show ?thesis by simp
  next
    case 2
    from "5.IH" [OF 2] show ?thesis .
  qed
next
  case (6 a x)
  from "6.prems" consider "y = x"
    | z where "z \<in> set (matcher a x)" "length (fst z) < length (fst x)"
        "y \<in> set (matcher (Star a) z)"
    by (subst (asm) in_Star) blast
  then show ?case
  proof cases
    case 1
    then show ?thesis by simp
  next
    case 2
    from "6.IH"(1) [OF 2(1)] obtain p where p: "fst x = p @ fst z" by blast
    from "6.IH"(2) [OF 2(1) 2(2) 2(3)] obtain q where q: "fst z = q @ fst y" by blast
    from p q have "fst x = (p @ q) @ fst y" by simp
    then show ?thesis by blast
  qed
next
  case (7 a x)
  from "7.prems" consider "y = x"
    | z where "z \<in> set (matcher a x)" "length (fst z) < length (fst x)"
        "y \<in> set (matcher (LazyStar a) z)"
    by (subst (asm) in_LazyStar) blast
  then show ?case
  proof cases
    case 1
    then show ?thesis by simp
  next
    case 2
    from "7.IH"(1) [OF 2(1)] obtain p where p: "fst x = p @ fst z" by blast
    from "7.IH"(2) [OF 2(1) 2(2) 2(3)] obtain q where q: "fst z = q @ fst y" by blast
    from p q have "fst x = (p @ q) @ fst y" by simp
    then show ?thesis by blast
  qed
next
  case (8 n a x)
  from "8.prems" obtain z where z: "z \<in> set (matcher a x)" "fst y = fst z"
    by (auto simp: in_Group)
  from "8.IH" [OF z(1)] z(2) show ?case by simp
next
  case (9 a x)
  from "9.prems" have "fst y = fst x" by (auto simp: in_Ahead)
  then show ?case by simp
qed

lemma matcher_groupFree:
  "groupFree r \<Longrightarrow> y \<in> set (matcher r x) \<Longrightarrow> snd y = snd x"
proof (induction r x arbitrary: y rule: matcher.induct)
  case (1 x)
  then show ?case by (simp add: in_Empty)
next
  case (2 p x)
  then show ?case by (auto simp: in_Chr)
next
  case (3 a b x)
  from "3.prems" obtain z where z: "z \<in> set (matcher a x)" "y \<in> set (matcher b z)"
    by (auto simp: in_Seq)
  from "3.prems"(1) have g: "groupFree a" "groupFree b" by simp_all
  from "3.IH"(1) [OF g(1) z(1)] "3.IH"(2) [OF z(1) g(2) z(2)] show ?case by simp
next
  case (4 a b x)
  from "4.prems"(1) have g: "groupFree a" "groupFree b" by simp_all
  from "4.prems"(2) consider "y \<in> set (matcher a x)" | "y \<in> set (matcher b x)"
    by (auto simp: in_Alt)
  then show ?case
  proof cases
    case 1
    from "4.IH"(1) [OF g(1) 1] show ?thesis .
  next
    case 2
    from "4.IH"(2) [OF g(2) 2] show ?thesis .
  qed
next
  case (5 a x)
  from "5.prems"(1) have g: "groupFree a" by simp
  from "5.prems"(2) consider "y = x" | "y \<in> set (matcher a x)" by (auto simp: in_Opt)
  then show ?case
  proof cases
    case 1
    then show ?thesis by simp
  next
    case 2
    from "5.IH" [OF g 2] show ?thesis .
  qed
next
  case (6 a x)
  from "6.prems"(1) have g: "groupFree a" "groupFree (Star a)" by simp_all
  from "6.prems"(2) consider "y = x"
    | z where "z \<in> set (matcher a x)" "length (fst z) < length (fst x)"
        "y \<in> set (matcher (Star a) z)"
    by (subst (asm) in_Star) blast
  then show ?case
  proof cases
    case 1
    then show ?thesis by simp
  next
    case 2
    from "6.IH"(1) [OF g(1) 2(1)] "6.IH"(2) [OF 2(1) 2(2) g(2) 2(3)] show ?thesis by simp
  qed
next
  case (7 a x)
  from "7.prems"(1) have g: "groupFree a" "groupFree (LazyStar a)" by simp_all
  from "7.prems"(2) consider "y = x"
    | z where "z \<in> set (matcher a x)" "length (fst z) < length (fst x)"
        "y \<in> set (matcher (LazyStar a) z)"
    by (subst (asm) in_LazyStar) blast
  then show ?case
  proof cases
    case 1
    then show ?thesis by simp
  next
    case 2
    from "7.IH"(1) [OF g(1) 2(1)] "7.IH"(2) [OF 2(1) 2(2) g(2) 2(3)] show ?thesis by simp
  qed
next
  case (8 n a x)
  then show ?case by simp
next
  case (9 a x)
  from "9.prems"(1) have g: "groupFree a" by simp
  from "9.prems"(2) obtain z zs where z: "matcher a x = z # zs" "snd y = snd z"
    by (auto simp: in_Ahead)
  from z(1) have "z \<in> set (matcher a x)" by simp
  from "9.IH" [OF g this] z(2) show ?case by simp
qed

lemma groupFree_Lit: "groupFree (Lit s)"
  by (induction s rule: Lit.induct) auto

lemma matcher_Star_Chr:
  "y \<in> set (matcher (Star (Chr p)) x) \<Longrightarrow>
     snd y = snd x \<and> (\<exists>w. fst x = w @ fst y \<and> list_all p w)"
proof (induction "length (fst x)" arbitrary: x rule: less_induct)
  case less
  from less.prems consider "y = x"
    | z where "z \<in> set (matcher (Chr p) x)" "length (fst z) < length (fst x)"
        "y \<in> set (matcher (Star (Chr p)) z)"
    by (subst (asm) in_Star) blast
  then show ?case
  proof cases
    case 1
    then show ?thesis by simp
  next
    case 2
    from 2(1) obtain c where c: "fst x = c # fst z" "p c" "snd z = snd x"
      by (auto simp: in_Chr)
    from less.hyps [OF 2(2) 2(3)] obtain w where w: "snd y = snd z" "fst z = w @ fst y" "list_all p w"
      by blast
    from c w have "fst x = (c # w) @ fst y \<and> list_all p (c # w)" by simp
    with c(3) w(1) show ?thesis by metis
  qed
qed

lemma matcher_Plus_Chr:
  assumes "y \<in> set (matcher (Plus (Chr p)) x)"
  shows "snd y = snd x \<and> (\<exists>w. fst x = w @ fst y \<and> list_all p w \<and> w \<noteq> [])"
proof -
  from assms obtain z where z: "z \<in> set (matcher (Chr p) x)" "y \<in> set (matcher (Star (Chr p)) z)"
    by (auto simp: Plus_def in_Seq)
  from z(1) obtain c where c: "fst x = c # fst z" "p c" "snd z = snd x"
    by (auto simp: in_Chr)
  from matcher_Star_Chr [OF z(2)] obtain w where w: "snd y = snd z" "fst z = w @ fst y" "list_all p w"
    by blast
  from c w have "fst x = (c # w) @ fst y \<and> list_all p (c # w) \<and> c # w \<noteq> []" by simp
  with c(3) w(1) show ?thesis by metis
qed

lemma not_isDigit_dot: "\<not> isDigit 0x2E"
  by (simp add: isDigit_def)

lemma isVersionNumber_digits:
  assumes "d1 \<noteq> []" "list_all isDigit d1"
  shows "isVersionNumber d1"
proof -
  from assms(2) have t: "takeWhile isDigit d1 = d1"
    by (simp add: list_all_iff)
  from assms(2) have d: "dropWhile isDigit d1 = []"
    by (simp add: list_all_iff)
  from assms(1) show ?thesis
    unfolding isVersionNumber_def t d by simp
qed

lemma isVersionNumber_fraction:
  assumes "d1 \<noteq> []" "list_all isDigit d1" "d2 \<noteq> []" "list_all isDigit d2"
  shows "isVersionNumber (d1 @ 0x2E # d2)"
proof -
  from assms(2) have t: "takeWhile isDigit (d1 @ 0x2E # d2) = d1"
    by (simp add: list_all_iff takeWhile_append2 not_isDigit_dot)
  from assms(2) have d: "dropWhile isDigit (d1 @ 0x2E # d2) = 0x2E # d2"
    by (simp add: list_all_iff dropWhile_append2 not_isDigit_dot)
  from assms(1,3,4) show ?thesis
    unfolding isVersionNumber_def t d by simp
qed

lemma matcher_numberRegex:
  assumes "y \<in> set (matcher numberRegex x)"
  shows "snd y = snd x \<and> (\<exists>v. fst x = v @ fst y \<and> isVersionNumber v)"
proof -
  from assms obtain z where z: "z \<in> set (matcher (Plus (Chr isDigit)) x)"
      "y \<in> set (matcher (Opt (Seq (Chr (\<lambda>c. c = 0x2E)) (Plus (Chr isDigit)))) z)"
    by (auto simp: numberRegex_def in_Seq)
  from matcher_Plus_Chr [OF z(1)] obtain d1 where
    d1: "snd z = snd x" "fst x = d1 @ fst z" "list_all isDigit d1" "d1 \<noteq> []"
    by blast
  from z(2) consider "y = z"
    | "y \<in> set (matcher (Seq (Chr (\<lambda>c. c = 0x2E)) (Plus (Chr isDigit))) z)"
    by (auto simp: in_Opt)
  then show ?thesis
  proof cases
    case 1
    with d1 isVersionNumber_digits [OF d1(4) d1(3)] show ?thesis by blast
  next
    case 2
    then obtain u where u: "u \<in> set (matcher (Chr (\<lambda>c. c = 0x2E)) z)"
        "y \<in> set (matcher (Plus (Chr isDigit)) u)"
      by (auto simp: in_Seq)
    from u(1) have dot: "fst z = 0x2E # fst u" "snd u = snd z"
      by (auto simp: in_Chr)
    from matcher_Plus_Chr [OF u(2)] obtain d2 where
      d2: "snd y = snd u" "fst u = d2 @ fst y" "list_all isDigit d2" "d2 \<noteq> []"
      by blast
    from d1 dot d2 have "fst x = (d1 @ 0x2E # d2) @ fst y" by simp
    moreover from d1 d2 have "isVersionNumber (d1 @ 0x2E # d2)"
      by (intro isVersionNumber_fraction)
    moreover from d1 dot d2 have "snd y = snd x" by simp
    ultimately show ?thesis by blast
  qed
qed

lemma versionRegex_unfold:
  "versionRegex =
     Seq (Lit (js ''### Version''))
    (Seq (Plus (Chr isWhiteSpace))
    (Seq (Group 1 numberRegex)
    (Seq (Chr (\<lambda>c. c = 0x0A))
    (Seq (Group 2 (LazyStar (Chr (\<lambda>c. True))))
         (Ahead (Alt (Lit (js ''### Version'')) (Chr (\<lambda>c. c = 0x7A))))))))"
  by (simp add: versionRegex_def numberRegex_def)

lemma matcher_versionRegex:
  assumes "y \<in> set (matcher versionRegex (s, []))"
  shows "\<exists>v b. snd y = [(2, b), (1, v)] \<and> isVersionNumber v"
proof -
  let ?any = "Chr (\<lambda>c. True)"
  let ?end = "Alt (Lit (js ''### Version'')) (Chr (\<lambda>c. c = 0x7A))"
  from assms obtain y1 y2 y3 y4 y5 where
    y1: "y1 \<in> set (matcher (Lit (js ''### Version'')) (s, []))" and
    y2: "y2 \<in> set (matcher (Plus (Chr isWhiteSpace)) y1)" and
    y3: "y3 \<in> set (matcher (Group 1 numberRegex) y2)" and
    y4: "y4 \<in> set (matcher (Chr (\<lambda>c. c = 0x0A)) y3)" and
    y5: "y5 \<in> set (matcher (Group 2 (LazyStar ?any)) y4)" and
    y6: "y \<in> set (matcher (Ahead ?end) y5)"
    unfolding versionRegex_unfold in_Seq by blast
  from matcher_groupFree [OF groupFree_Lit y1] have c1: "snd y1 = []" by simp
  from matcher_Plus_Chr [OF y2] c1 have c2: "snd y2 = []" by simp
  from y3 obtain z where z: "z \<in> set (matcher numberRegex y2)"
      "y3 = (fst z, (1, take (length (fst y2) - length (fst z)) (fst y2)) # snd z)"
    by (auto simp: in_Group)
  from matcher_numberRegex [OF z(1)] obtain v where
    v: "snd z = snd y2" "fst y2 = v @ fst z" "isVersionNumber v"
    by blast
  from z(2) v c2 have c3: "snd y3 = [(1, v)]" by simp
  from y4 c3 have c4: "snd y4 = [(1, v)]" by (auto simp: in_Chr)
  from y5 obtain u where u: "u \<in> set (matcher (LazyStar ?any) y4)"
      "y5 = (fst u, (2, take (length (fst y4) - length (fst u)) (fst y4)) # snd u)"
    by (auto simp: in_Group)
  have "groupFree (LazyStar ?any)" by simp
  from matcher_groupFree [OF this u(1)] c4 have "snd u = [(1, v)]" by simp
  with u(2) obtain b where c5: "snd y5 = [(2, b), (1, v)]" by simp
  have "groupFree (Ahead ?end)" by (simp add: groupFree_Lit)
  from matcher_groupFree [OF this y6] c5 have "snd y = [(2, b), (1, v)]" by simp
  with v(3) show ?thesis by blast
qed

lemma regExpExec_Some:
  "regExpExec r s = Some (s0, y) \<Longrightarrow> y \<in> set (matcher r (s0, []))"
  by (induction s) (auto split: list.splits)

lemma matchAll_elem:
  "m \<in> set (matchAll r s) \<Longrightarrow>
     \<exists>s0 y. y \<in> set (matcher r (s0, [])) \<and> m = (0, take (length s0 - length (fst y)) s0) # snd y"
proof (induction r s rule: matchAll.induct)
  case (1 r s)
  show ?case
  proof (cases "regExpExec r s")
    case None
    with "1.prems" show ?thesis by (subst (asm) matchAll.simps) simp
  next
    case (Some x)
    obtain s0 s1 caps where x: "x = (s0, (s1, caps))" by (cases x) auto
    from Some x have ex: "regExpExec r s = Some (s0, (s1, caps))" by simp
    from regExpExec_Some [OF ex] have in0: "(s1, caps) \<in> set (matcher r (s0, []))" .
    from "1.prems" ex consider
        "m = (0, take (length s0 - length s1) s0) # caps"
      | "length s1 < length s0" "m \<in> set (matchAll r s1)"
      | c t where "\<not> length s1 < length s0" "s0 = c # t" "m \<in> set (matchAll r t)"
      by (subst (asm) matchAll.simps) (auto split: if_splits list.splits)
    then show ?thesis
    proof cases
      case 1
      with in0 show ?thesis by force
    next
      case 2
      from "1.IH"(1) [OF Some x [symmetric] refl 2(1) 2(2)] show ?thesis .
    next
      case 3
      from "1.IH"(2) [OF Some x [symmetric] refl 3(1) 3(2) 3(3)] show ?thesis .
    qed
  qed
qed

lemma matchAll_versionRegex_groups:
  assumes "m \<in> set (matchAll versionRegex s)"
  shows "\<exists>w v b. m = [(0, w), (2, b), (1, v)] \<and> isVersionNumber v"
proof -
  from matchAll_elem [OF assms] obtain s0 y where
    y: "y \<in> set (matcher versionRegex (s0, []))"
       "m = (0, take (length s0 - length (fst y)) s0) # snd y"
    by blast
  from matcher_versionRegex [OF y(1)] obtain v b where
    "snd y = [(2, b), (1, v)]" "isVersionNumber v"
    by blast
  with y(2) show ?thesis by simp
qed

lemma isVersionNumber_zero: "isVersionNumber (js ''0.0'')"
  by code_simp

lemma extractPromptData_version:
  "version (extractPromptData content) = js ''0.0'' \<or>
   isVersionNumber (version (extractPromptData content))"
proof (cases "matchAll versionRegex content = []")
  case True
  then show ?thesis by (simp add: extractPromptData_def)
next
  case False
  let ?ms = "matchAll versionRegex content"
  from False have "?ms ! (length ?ms - 1) \<in> set ?ms" by simp
  from matchAll_versionRegex_groups [OF this] obtain w v b where
    m: "?ms ! (length ?ms - 1) = [(0, w), (2, b), (1, v)]" "isVersionNumber v"
    by blast
  from False m have "version (extractPromptData content) = v"
    by (simp add: extractPromptData_def Let_def grp_def)
  with m(2) show ?thesis by simp
qed

lemma isDigit_not_space: "isDigit c \<Longrightarrow> \<not> isWhiteSpace c"
  unfolding isDigit_def isWhiteSpace_def by (auto simp: word_le_nat_alt)

lemma parseFloat_isVersionNumber:
  assumes "isVersionNumber v"
  shows "\<exists>n. parseFloat num v = Some n"
proof -
  from assms have ne: "takeWhile isDigit v \<noteq> []"
    by (simp add: isVersionNumber_def Let_def)
  then obtain c r where v: "v = c # r" "isDigit c"
    by (cases v) (auto split: if_splits)
  from v isDigit_not_space have t: "trimStart v = v"
    by (simp add: trimStart_def)
  from v(2) have c: "c \<noteq> 0x2B" "c \<noteq> 0x2D" "c \<noteq> 0x49"
    by (auto simp: isDigit_def)
  have inf: "js ''Infinity'' = 0x49 # js ''nfinity''"
    by (simp add: js_def)
  from v c have nI: "\<not> startsWith v (js ''Infinity'')"
    unfolding inf by simp
  from ne nI have "\<exists>u. strUnsignedDecimalLiteral v = Some u"
    by (simp add: strUnsignedDecimalLiteral_def Let_def split: list.splits)
  with v c have "\<exists>u. strDecimalLiteral v = Some u"
    by (simp add: strDecimalLiteral_def)
  with t show ?thesis by (auto simp: parseFloat_def)
qed

section \<open>Properties of the host functions\<close>





lemma compareFn_Positive:
  "compareFn num a b = Positive \<longleftrightarrow>
     (\<exists>x y. parseFloat num (version a) = Some x \<and> parseFloat num (version b) = Some y \<and> x < y)"
  by (auto simp: compareFn_def subtract_def Let_def split: option.splits)

lemma hd_insertSorted:
  "hd (insertSorted cmp x ys) = x \<or> (ys \<noteq> [] \<and> cmp x (hd ys) = Positive \<and> hd (insertSorted cmp x ys) = hd ys)"
  by (cases ys) auto

lemma insertSorted_nonempty: "insertSorted cmp x ys \<noteq> []"
  by (cases ys) auto

lemma insertSorted_successively:
  assumes anti: "\<And>x y. cmp x y = Positive \<Longrightarrow> cmp y x \<noteq> Positive"
  shows "successively (\<lambda>a b. cmp a b \<noteq> Positive) ys \<Longrightarrow>
         successively (\<lambda>a b. cmp a b \<noteq> Positive) (insertSorted cmp x ys)"
proof (induction ys)
  case Nil
  then show ?case by simp
next
  case (Cons y ys)
  show ?case
  proof (cases "cmp x y = Positive")
    case False
    with Cons.prems show ?thesis by simp
  next
    case True
    from Cons.prems have tl: "successively (\<lambda>a b. cmp a b \<noteq> Positive) ys"
      by (auto simp: successively_Cons)
    from Cons.IH [OF tl] have ih: "successively (\<lambda>a b. cmp a b \<noteq> Positive) (insertSorted cmp x ys)" .
    have "cmp y (hd (insertSorted cmp x ys)) \<noteq> Positive"
    proof -
      from hd_insertSorted [of cmp x ys] consider "hd (insertSorted cmp x ys) = x"
        | "ys \<noteq> []" "hd (insertSorted cmp x ys) = hd ys" by blast
      then show ?thesis
      proof cases
        case 1
        with anti [OF True] show ?thesis by simp
      next
        case 2
        with Cons.prems show ?thesis by (auto simp: successively_Cons)
      qed
    qed
    with ih True show ?thesis by (simp add: successively_Cons)
  qed
qed

lemma arraySort_successively:
  assumes "\<And>x y. cmp x y = Positive \<Longrightarrow> cmp y x \<noteq> Positive"
  shows "successively (\<lambda>a b. cmp a b \<noteq> Positive) (arraySort cmp xs)"
proof (induction xs)
  case Nil
  then show ?case by (simp add: arraySort_def)
next
  case (Cons x xs)
  from insertSorted_successively [OF assms Cons.IH, of x] show ?case
    by (simp add: arraySort_def)
qed

lemma set_insertSorted: "set (insertSorted cmp x ys) = insert x (set ys)"
  by (induction ys) auto

lemma length_insertSorted: "length (insertSorted cmp x ys) = Suc (length ys)"
  by (induction ys) auto

lemma arraySort_same_elements:
  "set (arraySort cmp xs) = set xs \<and> length (arraySort cmp xs) = length xs"
  by (induction xs) (simp_all add: arraySort_def set_insertSorted length_insertSorted)

lemma successively_nth:
  "successively P xs \<Longrightarrow> Suc i < length xs \<Longrightarrow> P (xs ! i) (xs ! Suc i)"
proof (induction xs arbitrary: i)
  case Nil
  then show ?case by simp
next
  case (Cons x xs)
  show ?case
  proof (cases i)
    case 0
    with Cons.prems show ?thesis by (cases xs) auto
  next
    case (Suc k)
    from Cons.prems have "successively P xs" by (auto simp: successively_Cons)
    from Cons.IH [OF this, of k] Cons.prems Suc show ?thesis by simp
  qed
qed

lemma example_refresh:
  "(case refresh decimalValue exampleView of
      Inl e \<Rightarrow> False
    | Inr st' \<Rightarrow>
        map name (prompts st') = [js ''gamma'', js ''alpha'', js ''beta''] \<and>
        map version (prompts st') = [js ''3.5'', js ''1.0'', js ''0.0''])"
  by code_simp

lemma example_values:
  "parseFloat decimalValue (js ''3.5'') = Some (7 / 2)"
  "parseFloat decimalValue (js ''1.0'') = Some 1"
  by code_simp+

lemma example_folder:
  "promptFolderPath exampleView \<noteq> []"
  "getAbstractFileByPath (vault exampleView) (promptFolderPath exampleView) =
     Some (Folder (js ''prompts''))"
  by code_simp+

text \<open>
  After a refresh that succeeds, the version of every record parses as a number, so the
  comparator of the sort never yields NaN.
\<close>

lemma readAll_length: "readAll rd fs = Inr cs \<Longrightarrow> length cs = length fs"
  by (induction fs arbitrary: cs) (auto split: option.splits sum.splits)

lemma mkPrompt_version_parses:
  "\<exists>n. parseFloat num (version (mkPrompt f c)) = Some n"
proof -
  have "isVersionNumber (version (extractPromptData c))"
    using extractPromptData_version [of c] isVersionNumber_zero by auto
  from parseFloat_isVersionNumber [OF this] show ?thesis
    by (simp add: mkPrompt_def Let_def)
qed

lemma refresh_versions_parse:
  fixes num :: "jsstring \<Rightarrow> 'n::linorder"
  assumes "promptFolderPath st \<noteq> []"
    and "getAbstractFileByPath (vault st) (promptFolderPath st) = Some (Folder folderPath)"
    and "refresh num st = Inr st'"
    and "p \<in> set (prompts st')"
  shows "\<exists>n. parseFloat num (version p) = Some n"
proof -
  from assms(1-3) obtain fs cs where
    "prompts st' = arraySort (compareFn num) (map2 mkPrompt fs cs)"
    by (auto simp: refresh_def Let_def split: sum.splits)
  with assms(4) arraySort_same_elements [of "compareFn num" "map2 mkPrompt fs cs"]
  have "p \<in> set (map2 mkPrompt fs cs)" by simp
  then obtain f c where "p = mkPrompt f c" by auto
  with mkPrompt_version_parses [of num f c] show ?thesis by simp
qed

section \<open>The version parser: claims\<close>

text \<open>
  Claim C1: for the input \<^verbatim>\<open>"### Version 1.0\nFoo\n### Version 2.0\nBar"\<close> the parser
  returns version \<open>2.0\<close>, details \<open>Bar\<close> and a full content with both sections. The parser
  does not do this: the lookahead that ends a section asks for another heading or for the
  letter \<open>z\<close>, and neither follows the second heading, so the second section is not matched.
  The parser returns the first section alone: version \<open>1.0\<close>, details \<open>Foo\<close> and the full
  content \<^verbatim>\<open>"### Version 1.0\nFoo\n"\<close>.
\<close>

theorem extractPromptData_example_actual:
  "matchAll versionRegex (js ''### Version 1.0\<newline>Foo\<newline>### Version 2.0\<newline>Bar'') =
     [[(0, js ''### Version 1.0\<newline>Foo\<newline>''), (2, js ''Foo\<newline>''), (1, js ''1.0'')]] \<and>
   extractPromptData (js ''### Version 1.0\<newline>Foo\<newline>### Version 2.0\<newline>Bar'') =
     \<lparr>version = js ''1.0'', details = js ''Foo'',
      fullContent = js ''### Version 1.0\<newline>Foo\<newline>''\<rparr> \<and>
   version (extractPromptData (js ''### Version 1.0\<newline>Foo\<newline>### Version 2.0\<newline>Bar'')) \<noteq> js ''2.0'' \<and>
   details (extractPromptData (js ''### Version 1.0\<newline>Foo\<newline>### Version 2.0\<newline>Bar'')) \<noteq> js ''Bar'' \<and>
   fullContent (extractPromptData (js ''### Version 1.0\<newline>Foo\<newline>### Version 2.0\<newline>Bar'')) \<noteq>
     js ''### Version 1.0\<newline>Foo\<newline>\<newline>### Version 2.0\<newline>Bar''"
  by code_simp

text \<open>
  Claim C2: for a document with N headings \<^verbatim>\<open>### Version <number>\<close>, N at least 1, the full
  content has exactly these N headings in their order, and version and details come from the
  heading that is last in the document. The parser does not do this: the lookahead that ends a
  section asks for another heading or for the letter \<open>z\<close>, so the last section of a document is
  matched only when a \<open>z\<close> follows in it. Below, a document with two headings yields the first
  one alone, and a document with one heading yields the fallback for no heading at all.
\<close>

theorem extractPromptData_last_heading_unmatched:
  "extractPromptData (js ''### Version 2.0\<newline>New\<newline>### Version 1.0\<newline>Old'') =
     \<lparr>version = js ''2.0'', details = js ''New'',
      fullContent = js ''### Version 2.0\<newline>New\<newline>''\<rparr> \<and>
   extractPromptData (js ''### Version 3\<newline>Only'') =
     \<lparr>version = js ''0.0'', details = js ''### Version 3\<newline>Only'',
      fullContent = js ''### Version 3\<newline>Only''\<rparr>"
  by code_simp

text \<open>
  Claim C6: when the parser finds no version section, it returns the version \<open>0.0\<close>, the
  trimmed text as details and the text itself, unchanged, as full content.
\<close>

theorem extractPromptData_no_sections:
  "matchAll versionRegex content = [] \<Longrightarrow>
   extractPromptData content =
     \<lparr>version = js ''0.0'', details = trim content, fullContent = content\<rparr>"
  by (simp add: extractPromptData_def)

text \<open>The example of the claim: the input \<open>no headings here\<close>.\<close>

theorem extractPromptData_no_sections_witness:
  "matchAll versionRegex (js ''no headings here'') = [] \<and>
   extractPromptData (js ''no headings here'') =
     \<lparr>version = js ''0.0'', details = js ''no headings here'',
      fullContent = js ''no headings here''\<rparr>"
proof -
  have h: "matchAll versionRegex (js ''no headings here'') = []"
    by code_simp
  have t: "trim (js ''no headings here'') = js ''no headings here''"
    by code_simp
  from extractPromptData_no_sections [OF h] t h show ?thesis by simp
qed

text \<open>
  Claim C10: for every input text the version that the parser returns is the literal \<open>0.0\<close> or
  digits, optionally followed by a dot and digits; so \<open>parseFloat\<close> of it is never NaN.
\<close>

theorem extractPromptData_version_well_formed:
  "(version (extractPromptData content) = js ''0.0'' \<or>
    isVersionNumber (version (extractPromptData content))) \<and>
   (\<exists>n. parseFloat num (version (extractPromptData content)) = Some n)"
proof -
  have "isVersionNumber (version (extractPromptData content))"
    using extractPromptData_version [of content] isVersionNumber_zero by auto
  from parseFloat_isVersionNumber [OF this] extractPromptData_version [of content]
  show ?thesis by blast
qed

section \<open>The prompt repository and the view: claims\<close>

text \<open>
  Claim C3: a name confirmed in the New Prompt dialog, with a valid configured folder, makes
  a new file at the path of the folder, a slash, the name and \<open>.md\<close>, with the template as
  content. The callback of the dialog does not do this: it checks the folder and then passes
  the name and \<open>.md\<close> alone to \<open>vault.create\<close>. For the name \<open>Greeting\<close> and the folder
  \<open>prompts\<close> of the example vault the new file is \<open>Greeting.md\<close> in the root folder, no file
  \<open>prompts/Greeting.md\<close> exists afterwards, and the refreshed collection does not hold the new
  prompt. \<open>createPrompt\<close> of the plugin shell, which the dialog does not call, builds the path
  from the folder.
\<close>

theorem new_prompt_created_outside_folder:
  "(case showNewPromptModal_onSubmit vaultCreate decimalValue (js ''Greeting'') exampleView of
      Inl e \<Rightarrow> False
    | Inr st' \<Rightarrow>
        effects st' =
          [VaultCreate (js ''Greeting.md'') (js ''### Version 1.0\<newline>\<newline>New prompt content'')] \<and>
        getAbstractFileByPath (vault st') (js ''prompts/Greeting.md'') = None \<and>
        getAbstractFileByPath (vault st') (js ''Greeting.md'') =
          Some (File \<lparr>path = js ''Greeting.md'', basename = js ''Greeting'',
                      extension = js ''md'', parent = Some (js ''/'')\<rparr>) \<and>
        map name (prompts st') = [js ''gamma'', js ''alpha'', js ''beta'']) \<and>
   (case createPrompt (\<lambda>p. p) (\<lambda>p v. None) vaultCreate (js ''Greeting'')
           (js ''### Version 1.0\<newline>\<newline>New prompt content'') exampleView of
      Inl e \<Rightarrow> False
    | Inr st' \<Rightarrow>
        effects st' =
          [VaultCreate (js ''prompts/Greeting.md'')
             (js ''### Version 1.0\<newline>\<newline>New prompt content'')])"
  by code_simp

text \<open>
  Claim C4: when the configured folder path is empty or does not resolve to a folder,
  \<open>refresh\<close> returns normally, its only effect is one notice, and the collection of prompts is
  as it was.
\<close>

theorem refresh_invalid_folder:
  fixes num :: "jsstring \<Rightarrow> 'n::linorder"
  assumes "promptFolderPath st = [] \<or>
           (\<forall>p. getAbstractFileByPath (vault st) (promptFolderPath st) \<noteq> Some (Folder p))"
  shows "\<exists>msg. refresh num st = Inr (st\<lparr>effects := effects st @ [Notice msg]\<rparr>) \<and>
               prompts (st\<lparr>effects := effects st @ [Notice msg]\<rparr>) = prompts st"
  using assms
  by (auto simp: refresh_def notice_def split: option.splits TAbstractFile.splits)

text \<open>
  The example view with an empty folder path and with the path of no folder.
\<close>

theorem refresh_invalid_folder_witness:
  "(promptFolderPath (exampleView\<lparr>promptFolderPath := []\<rparr>) = [] \<or>
    (\<forall>p. getAbstractFileByPath (vault (exampleView\<lparr>promptFolderPath := []\<rparr>))
            (promptFolderPath (exampleView\<lparr>promptFolderPath := []\<rparr>)) \<noteq> Some (Folder p))) \<and>
   (\<exists>msg. refresh decimalValue (exampleView\<lparr>promptFolderPath := []\<rparr>) =
            Inr (exampleView\<lparr>promptFolderPath := [],
                             effects := effects (exampleView\<lparr>promptFolderPath := []\<rparr>) @ [Notice msg]\<rparr>)) \<and>
   (\<forall>p. getAbstractFileByPath (vault (exampleView\<lparr>promptFolderPath := js ''missing''\<rparr>))
            (promptFolderPath (exampleView\<lparr>promptFolderPath := js ''missing''\<rparr>)) \<noteq> Some (Folder p)) \<and>
   (\<exists>msg. refresh decimalValue (exampleView\<lparr>promptFolderPath := js ''missing''\<rparr>) =
            Inr (exampleView\<lparr>promptFolderPath := js ''missing'',
                             effects := effects (exampleView\<lparr>promptFolderPath := js ''missing''\<rparr>) @ [Notice msg]\<rparr>))"
proof -
  let ?a = "exampleView\<lparr>promptFolderPath := []\<rparr>"
  let ?b = "exampleView\<lparr>promptFolderPath := js ''missing''\<rparr>"
  have ha: "promptFolderPath ?a = []" by simp
  have g: "getAbstractFileByPath exampleVault (js ''missing'') = None"
    by code_simp
  have hb: "\<forall>p. getAbstractFileByPath (vault ?b) (promptFolderPath ?b) \<noteq> Some (Folder p)"
    by (simp add: exampleView_def g)
  from refresh_invalid_folder [of ?a decimalValue] ha
       refresh_invalid_folder [of ?b decimalValue] hb
  show ?thesis by simp
qed

text \<open>
  Claim C5: after a refresh that succeeds, of two neighbours in the collection whose versions
  both parse as numbers, the first has a number that is at least the number of the second.
\<close>

theorem refresh_sorted:
  fixes num :: "jsstring \<Rightarrow> 'n::linorder"
  assumes "promptFolderPath st \<noteq> []"
    and "getAbstractFileByPath (vault st) (promptFolderPath st) = Some (Folder folderPath)"
    and "refresh num st = Inr st'"
    and "Suc i < length (prompts st')"
    and "parseFloat num (version (prompts st' ! i)) = Some a"
    and "parseFloat num (version (prompts st' ! Suc i)) = Some b"
  shows "b \<le> a"
proof -
  from assms(1-3) obtain xs where xs: "prompts st' = arraySort (compareFn num) xs"
    by (auto simp: refresh_def Let_def split: sum.splits)
  have "successively (\<lambda>p q. compareFn num p q \<noteq> Positive) (arraySort (compareFn num) xs)"
    by (rule arraySort_successively) (auto simp: compareFn_Positive)
  with xs have "successively (\<lambda>p q. compareFn num p q \<noteq> Positive) (prompts st')"
    by simp
  from successively_nth [OF this assms(4)]
  have "compareFn num (prompts st' ! i) (prompts st' ! Suc i) \<noteq> Positive" .
  with assms(5,6) show ?thesis
    by (simp add: compareFn_Positive)
qed

text \<open>
  The example vault: the refreshed collection has the versions 3.5, 1.0 and 0.0, in this order.
\<close>

theorem refresh_sorted_witness:
  "\<exists>st'. promptFolderPath exampleView \<noteq> [] \<and>
     getAbstractFileByPath (vault exampleView) (promptFolderPath exampleView) =
       Some (Folder (js ''prompts'')) \<and>
     refresh decimalValue exampleView = Inr st' \<and>
     Suc 0 < length (prompts st') \<and>
     parseFloat decimalValue (version (prompts st' ! 0)) = Some (7 / 2) \<and>
     parseFloat decimalValue (version (prompts st' ! Suc 0)) = Some 1 \<and>
     (1::rat) \<le> 7 / 2"
proof -
  from example_refresh obtain st' where
    r: "refresh decimalValue exampleView = Inr st'" and
    v: "map version (prompts st') = [js ''3.5'', js ''1.0'', js ''0.0'']"
    by (auto split: sum.splits)
  from v have len: "length (prompts st') = 3"
    by (metis length_map length_Cons list.size(3) numeral_3_eq_3)
  from v len have v0: "version (prompts st' ! 0) = js ''3.5''"
    by (metis nth_map nth_Cons_0 zero_less_numeral)
  from v len have v1: "version (prompts st' ! Suc 0) = js ''1.0''"
    by (metis nth_map nth_Cons_0 nth_Cons_Suc One_nat_def one_less_numeral_iff semiring_norm(77))
  from len have l: "Suc 0 < length (prompts st')" by simp
  from v0 v1 example_values have p:
    "parseFloat decimalValue (version (prompts st' ! 0)) = Some (7 / 2)"
    "parseFloat decimalValue (version (prompts st' ! Suc 0)) = Some 1"
    by simp_all
  from refresh_sorted [OF example_folder r l p] have "(1::rat) \<le> 7 / 2" .
  with example_folder r l p show ?thesis by blast
qed

text \<open>
  Claim C7: the Copy action of a record, in the list and on the board, writes the details of
  the record to the clipboard, whatever its full content is, and then shows one notice: of
  success when the host accepts the text, of failure when it rejects it.
\<close>

theorem copy_writes_details:
  "effects (renderList_copy_onclick True p st) =
     effects st @ [ClipboardWriteText (details p),
                   Notice (js ''Copied prompt version '' @ version p @ js '' content'')] \<and>
   effects (renderList_copy_onclick False p st) =
     effects st @ [ClipboardWriteText (details p), ConsoleError (js ''Failed to copy: ''),
                   Notice (js ''Failed to copy content'')] \<and>
   effects (renderBoard_copy_onclick True p st) =
     effects st @ [ClipboardWriteText (details p),
                   Notice (js ''Copied prompt version '' @ version p @ js '' content'')] \<and>
   effects (renderBoard_copy_onclick False p st) =
     effects st @ [ClipboardWriteText (details p), ConsoleError (js ''Failed to copy: ''),
                   Notice (js ''Failed to copy content'')] \<and>
   renderList_copy_onclick ok (p\<lparr>fullContent := fc\<rparr>) st = renderList_copy_onclick ok p st \<and>
   renderBoard_copy_onclick ok (p\<lparr>fullContent := fc\<rparr>) st = renderBoard_copy_onclick ok p st"
  by (simp add: renderList_copy_onclick_def renderBoard_copy_onclick_def copyOutcome_def)

text \<open>
  The example of the claim: a record with the details \<open>Bar\<close>.
\<close>

theorem copy_writes_details_witness:
  "details (examplePrompt ''alpha'' ''2.0'' ''Bar'' ''### Version 2.0\<newline>Bar'') = js ''Bar'' \<and>
   effects (renderList_copy_onclick True
              (examplePrompt ''alpha'' ''2.0'' ''Bar'' ''### Version 2.0\<newline>Bar'') exampleView) =
     [ClipboardWriteText (js ''Bar''), Notice (js ''Copied prompt version 2.0 content'')] \<and>
   effects (renderBoard_copy_onclick False
              (examplePrompt ''alpha'' ''2.0'' ''Bar'' ''### Version 2.0\<newline>Bar'') exampleView) =
     [ClipboardWriteText (js ''Bar''), ConsoleError (js ''Failed to copy: ''),
      Notice (js ''Failed to copy content'')]"
proof -
  let ?p = "examplePrompt ''alpha'' ''2.0'' ''Bar'' ''### Version 2.0\<newline>Bar''"
  have d: "details ?p = js ''Bar''" "version ?p = js ''2.0''"
    by (simp_all add: examplePrompt_def)
  have e: "effects exampleView = []"
    by (simp add: exampleView_def)
  have m: "js ''Copied prompt version '' @ js ''2.0'' @ js '' content'' =
           js ''Copied prompt version 2.0 content''"
    by (simp add: js_def)
  from copy_writes_details [of ?p exampleView] d e m show ?thesis by simp
qed




text \<open>
  Claim C9: when the New Prompt dialog is confirmed with an empty name, the callback does
  nothing: no file, no notice, the same collection.
\<close>

theorem empty_name_ignored:
  "showNewPromptModal_onSubmit create num [] st = Inr st \<and>
   submitButton_onclick create num [] st = Inr st"
  by (simp add: showNewPromptModal_onSubmit_def submitButton_onclick_def)

end
